theory Spec2Isabelle
  imports Main "HOL-Library.Word"
begin

unbundle bit_operations_syntax

section \<open>HC-SR04 echo timing on TIM2 input capture (src/main.c)\<close>

text \<open>
  The program is one C function, \<^verbatim>\<open>measure_distance_cm\<close>, that talks to the timer
  and the GPIO port through memory-mapped \<^verbatim>\<open>volatile uint32_t\<close> registers, and the
  \<^verbatim>\<open>main\<close> loop that classifies its return value.  All data are \<^verbatim>\<open>uint32_t\<close>:
  32-bit words whose arithmetic wraps.
\<close>

type_synonym u32 = "32 word"

subsection \<open>Volatile registers\<close>

text \<open>
  The registers the measurement touches.  A volatile read is an input: the value comes
  from the hardware, not from what the program wrote before.  A volatile write is an
  output.  The state threaded through the program is the trace of the accesses made so
  far; the environment \<open>env r n\<close> is the value the hardware hands out at the \<open>n\<close>-th
  read (counted from 0) of register \<open>r\<close>.
\<close>

datatype reg = TIM2_SR | TIM2_CNT | TIM2_CCER | TIM2_CCR2 | GPIOA_ODR

datatype event =
    Rd reg u32
  | Wr reg u32
  | Print_pulse_width u32
  | Print_distance u32

type_synonym trace = "event list"
type_synonym env = "reg \<Rightarrow> nat \<Rightarrow> u32"

fun is_read :: "reg \<Rightarrow> event \<Rightarrow> bool" where
  "is_read r (Rd r' v) = (r' = r)"
| "is_read r (Wr r' v) = False"
| "is_read r (Print_pulse_width v) = False"
| "is_read r (Print_distance v) = False"

definition nreads :: "reg \<Rightarrow> trace \<Rightarrow> nat" where
  "nreads r tr = length (filter (is_read r) tr)"

definition rd :: "env \<Rightarrow> reg \<Rightarrow> trace \<Rightarrow> u32 \<times> trace" where
  "rd env r tr = (let v = env r (nreads r tr) in (v, tr @ [Rd r v]))"

definition wr :: "reg \<Rightarrow> u32 \<Rightarrow> trace \<Rightarrow> trace" where
  "wr r v tr = tr @ [Wr r v]"

text \<open>\<^verbatim>\<open>TIM2_SR & (1 << 2)\<close>: the CC2IF capture flag as the two wait loops test it.\<close>

definition cc2if :: "u32 \<Rightarrow> bool" where
  "cc2if sr \<longleftrightarrow> sr AND push_bit 2 1 \<noteq> 0"

subsection \<open>Pulse width and distance (lines 149-166)\<close>

text \<open>
  \<^verbatim>\<open>if (end_time >= start_time) pulse_width = end_time - start_time;
  else pulse_width = (0xFFFF - start_time) + end_time + 1;\<close>
\<close>

definition pulse_width :: "u32 \<Rightarrow> u32 \<Rightarrow> u32" where
  "pulse_width start_time end_time =
     (if end_time \<ge> start_time then end_time - start_time
      else (0xFFFF - start_time) + end_time + 1)"

text \<open>\<^verbatim>\<open>uint32_t distance_cm = (pulse_width * 343) / 4000;\<close>\<close>

definition distance_cm :: "u32 \<Rightarrow> u32" where
  "distance_cm pw = (pw * 343) div 4000"

subsection \<open>The busy-wait delay (lines 80-88)\<close>

text \<open>
  \<^verbatim>\<open>volatile uint32_t count = us * 42; while (count--) nop;\<close>  The loop counts a local
  down to zero and touches no register: it always ends, and the trace is left as it is.
\<close>

definition delay_us :: "u32 \<Rightarrow> trace \<Rightarrow> trace" where
  "delay_us us tr = tr"

subsection \<open>The wait loops (lines 116-123 and 135-142)\<close>

text \<open>
  \<^verbatim>\<open>while (!(TIM2_SR & (1 << 2)) && --timeout) { if (TIM2_CNT > bound) return 0xFFFF; }\<close>
  The loop either returns from the function, or falls through with the value
  \<^verbatim>\<open>timeout\<close> then has.  \<^verbatim>\<open>&&\<close> short-circuits: \<^verbatim>\<open>timeout\<close> is decremented only when
  the flag was read clear.
\<close>

datatype loop_exit = Return_from_loop u32 | Fall_through u32

function wait_capture :: "env \<Rightarrow> u32 \<Rightarrow> u32 \<Rightarrow> trace \<Rightarrow> loop_exit \<times> trace" where
  "wait_capture env bound timeout tr =
     (let (sr, tr1) = rd env TIM2_SR tr in
      if cc2if sr then (Fall_through timeout, tr1)
      else let timeout' = timeout - 1 in
        if timeout' = 0 then (Fall_through timeout', tr1)
        else let (cnt, tr2) = rd env TIM2_CNT tr1 in
          if cnt > bound then (Return_from_loop 0xFFFF, tr2)
          else wait_capture env bound timeout' tr2)"
  by pat_completeness auto
termination
proof (relation "measure (\<lambda>(env, bound, timeout, tr). unat (timeout - 1))", goal_cases)
  case 1
  show ?case by simp
next
  case (2 env bound timeout tr x sr tr1 timeout' xa cnt tr2)
  have dec: "\<And>w :: u32. w \<noteq> 0 \<Longrightarrow> unat (w - 1) < unat w"
    by (simp add: unat_minus_one unat_gt_0 word_neq_0_conv)
  from 2 have "timeout - 1 \<noteq> 0" by simp
  from dec [OF this] show ?case using 2 by simp
qed

declare wait_capture.simps [simp del]

subsection \<open>One measurement cycle (lines 96-172)\<close>

text \<open>Lines 100-107: clear CC2IF, zero the counter, select the rising edge.\<close>

definition rearm_timer :: "env \<Rightarrow> trace \<Rightarrow> trace" where
  "rearm_timer env tr0 =
     (let (sr, tr) = rd env TIM2_SR tr0;
          tr = wr TIM2_SR (sr AND NOT (push_bit 2 1)) tr;
          tr = wr TIM2_CNT 0 tr;
          (ccer, tr) = rd env TIM2_CCER tr;
          tr = wr TIM2_CCER (ccer AND NOT (push_bit 5 1)) tr
      in tr)"

text \<open>Lines 109-112: PA0 high, \<^verbatim>\<open>delay_us(100)\<close>, PA0 low.\<close>

definition fire_trigger :: "env \<Rightarrow> trace \<Rightarrow> trace" where
  "fire_trigger env tr0 =
     (let (odr, tr) = rd env GPIOA_ODR tr0;
          tr = wr GPIOA_ODR (odr OR push_bit 0 1) tr;
          tr = delay_us 100 tr;
          (odr, tr) = rd env GPIOA_ODR tr;
          tr = wr GPIOA_ODR (odr AND NOT (push_bit 0 1)) tr
      in tr)"

definition arm_and_trigger :: "env \<Rightarrow> trace \<Rightarrow> trace" where
  "arm_and_trigger env tr0 = fire_trigger env (rearm_timer env tr0)"

text \<open>Lines 127-128 and 146-147: read CCR2, then clear CC2IF.\<close>

definition read_capture :: "env \<Rightarrow> trace \<Rightarrow> u32 \<times> trace" where
  "read_capture env tr0 =
     (let (t, tr) = rd env TIM2_CCR2 tr0;
          (sr, tr) = rd env TIM2_SR tr;
          tr = wr TIM2_SR (sr AND NOT (push_bit 2 1)) tr
      in (t, tr))"

definition measure_distance_cm :: "env \<Rightarrow> trace \<Rightarrow> u32 \<times> trace" where
  "measure_distance_cm env tr0 =
     (let tr = arm_and_trigger env tr0 in
      case wait_capture env 60000 50000 tr of
        (Return_from_loop v, tr) \<Rightarrow> (v, tr)
      | (Fall_through timeout, tr) \<Rightarrow>
          if timeout = 0 then (0xFFFF, tr)
          else
            let (start_time, tr) = read_capture env tr;
                (ccer, tr) = rd env TIM2_CCER tr;
                tr = wr TIM2_CCER (ccer OR push_bit 5 1) tr
            in case wait_capture env 30000 50000 tr of
                 (Return_from_loop v, tr) \<Rightarrow> (v, tr)
               | (Fall_through timeout, tr) \<Rightarrow>
                   if timeout = 0 then (0xFFFF, tr)
                   else
                     let (end_time, tr) = read_capture env tr;
                         pw = pulse_width start_time end_time;
                         tr = tr @ [Print_pulse_width pw];
                         d = distance_cm pw;
                         tr = tr @ [Print_distance d]
                     in (d, tr))"

subsection \<open>The caller (lines 215-226)\<close>

text \<open>
  \<^verbatim>\<open>if (distance == 0xFFFF) printf("Distance Error or Timeout") else printf("Distance: %lu cm", distance)\<close>
\<close>

datatype status_line = Error_line | Distance_line u32

definition main_report :: "u32 \<Rightarrow> status_line" where
  "main_report distance = (if distance = 0xFFFF then Error_line else Distance_line distance)"

subsection \<open>Scenarios of one cycle\<close>

text \<open>
  The events a wait loop appends to the trace are reads of the status register and of the
  counter only.
\<close>

fun is_poll :: "event \<Rightarrow> bool" where
  "is_poll (Rd r v) = (r = TIM2_SR \<or> r = TIM2_CNT)"
| "is_poll (Wr r v) = False"
| "is_poll (Print_pulse_width v) = False"
| "is_poll (Print_distance v) = False"

text \<open>
  What the hardware shows to a wait loop whose first poll is the \<open>s\<close>-th read of the status
  register and whose first look at the counter is the \<open>c\<close>-th read of the counter.
  \<open>capture_seen_at\<close>: polls \<open>0 .. k - 1\<close> read the flag clear and the counter within the
  bound, poll \<open>k\<close> reads the flag set, within the budget of 50000 polls.
  \<open>no_capture_seen\<close>: no poll made before the counter passes the bound reads the flag set.
\<close>

definition capture_seen_at :: "env \<Rightarrow> u32 \<Rightarrow> nat \<Rightarrow> nat \<Rightarrow> nat \<Rightarrow> bool" where
  "capture_seen_at env bound s c k \<longleftrightarrow>
     k < 50000 \<and>
     (\<forall>j\<in>{0..<k}. \<not> cc2if (env TIM2_SR (s + j)) \<and> env TIM2_CNT (c + j) \<le> bound) \<and>
     cc2if (env TIM2_SR (s + k))"

definition no_capture_seen :: "env \<Rightarrow> u32 \<Rightarrow> nat \<Rightarrow> nat \<Rightarrow> bool" where
  "no_capture_seen env bound s c \<longleftrightarrow>
     (\<forall>j\<in>{0..<50000}. (\<forall>i\<in>{0..<j}. env TIM2_CNT (c + i) \<le> bound) \<longrightarrow>
                         \<not> cc2if (env TIM2_SR (s + j)))"

text \<open>
  The same for a whole cycle that starts after the trace \<open>tr\<close>: the rising-edge wait polls
  from the read after the one of line 101, the falling-edge wait from the read after the
  one of line 128; \<open>k1\<close> is the poll that saw the rising edge.  The cycle's two
  captures are the next two values of CCR2.
\<close>

definition rising_seen :: "env \<Rightarrow> trace \<Rightarrow> nat \<Rightarrow> bool" where
  "rising_seen env tr k1 \<longleftrightarrow>
     capture_seen_at env 60000 (nreads TIM2_SR tr + 1) (nreads TIM2_CNT tr) k1"

definition falling_seen :: "env \<Rightarrow> trace \<Rightarrow> nat \<Rightarrow> nat \<Rightarrow> bool" where
  "falling_seen env tr k1 k2 \<longleftrightarrow>
     capture_seen_at env 30000 (nreads TIM2_SR tr + k1 + 3) (nreads TIM2_CNT tr + k1) k2"

definition no_rising_seen :: "env \<Rightarrow> trace \<Rightarrow> bool" where
  "no_rising_seen env tr \<longleftrightarrow>
     no_capture_seen env 60000 (nreads TIM2_SR tr + 1) (nreads TIM2_CNT tr)"

definition no_falling_seen :: "env \<Rightarrow> trace \<Rightarrow> nat \<Rightarrow> bool" where
  "no_falling_seen env tr k1 \<longleftrightarrow>
     no_capture_seen env 30000 (nreads TIM2_SR tr + k1 + 3) (nreads TIM2_CNT tr + k1)"

definition start_capture :: "env \<Rightarrow> trace \<Rightarrow> u32" where
  "start_capture env tr = env TIM2_CCR2 (nreads TIM2_CCR2 tr)"

definition end_capture :: "env \<Rightarrow> trace \<Rightarrow> u32" where
  "end_capture env tr = env TIM2_CCR2 (nreads TIM2_CCR2 tr + 1)"

text \<open>
  The falling edge within 30000 ticks of the rising-edge capture: as \<open>falling_seen\<close>, with
  every counter value the falling-edge wait reads measured from the start capture instead
  of from the counter reset of line 104.
\<close>

definition falling_within_echo_duration :: "env \<Rightarrow> trace \<Rightarrow> nat \<Rightarrow> nat \<Rightarrow> bool" where
  "falling_within_echo_duration env tr k1 k2 \<longleftrightarrow>
     k2 < 50000 \<and>
     (\<forall>j\<in>{0..<k2}. \<not> cc2if (env TIM2_SR (nreads TIM2_SR tr + k1 + 3 + j)) \<and>
        env TIM2_CNT (nreads TIM2_CNT tr + k1 + j) - start_capture env tr \<le> 30000) \<and>
     cc2if (env TIM2_SR (nreads TIM2_SR tr + k1 + 3 + k2)) \<and>
     pulse_width (start_capture env tr) (end_capture env tr) \<le> 30000"

text \<open>Lines 127-131: the trace after the start capture and the switch to the falling edge.\<close>

definition armed_falling :: "env \<Rightarrow> trace \<Rightarrow> trace" where
  "armed_falling env tr =
     (let (start_time, tr) = read_capture env tr;
          (ccer, tr) = rd env TIM2_CCER tr
      in wr TIM2_CCER (ccer OR push_bit 5 1) tr)"


subsection \<open>Concrete hardware behaviours\<close>

text \<open>
  \<open>env_echo s e\<close>: the capture flag reads set at every poll, and the captures alternate
  between \<open>s\<close> and \<open>e\<close>, so that every cycle captures \<open>s\<close> then \<open>e\<close>.
  \<open>env_pulse k1 k2 s e\<close>: in a cycle started on the empty trace the rising edge is seen at
  poll \<open>k1\<close> and the falling edge at poll \<open>k2\<close>, while the counter stays at 1000.
  \<open>env_silent\<close>: the flag never reads set and the counter reads 60001.
  \<open>env_ramp\<close>: the flag never reads set and the counter reads 20000, 40000, 60000, 80000
  and so on.
  \<open>env_stuck_high\<close>: the rising edge is seen at the first poll, the flag never reads set
  again and the counter reads 30001.
  \<open>env_late_rising\<close>: the rising edge is seen at the second poll, when the counter has
  reached 35000 and the capture is 35005; the falling edge is captured at 36005, and the
  flag reads set at the second poll of the falling-edge wait.
\<close>

definition env_echo :: "u32 \<Rightarrow> u32 \<Rightarrow> env" where
  "env_echo s e r n =
     (case r of TIM2_SR \<Rightarrow> 4 | TIM2_CCR2 \<Rightarrow> (if even n then s else e) | _ \<Rightarrow> 0)"

definition env_pulse :: "nat \<Rightarrow> nat \<Rightarrow> u32 \<Rightarrow> u32 \<Rightarrow> env" where
  "env_pulse k1 k2 s e r n =
     (case r of
        TIM2_SR \<Rightarrow> (if n = k1 + 1 \<or> n = k1 + k2 + 3 then 4 else 0)
      | TIM2_CNT \<Rightarrow> 1000
      | TIM2_CCR2 \<Rightarrow> (if even n then s else e)
      | _ \<Rightarrow> 0)"

definition env_silent :: env where
  "env_silent r n = (case r of TIM2_CNT \<Rightarrow> 60001 | _ \<Rightarrow> 0)"

definition env_ramp :: env where
  "env_ramp r n = (case r of TIM2_CNT \<Rightarrow> 20000 * (of_nat n + 1) | _ \<Rightarrow> 0)"

definition env_stuck_high :: env where
  "env_stuck_high r n =
     (case r of
        TIM2_SR \<Rightarrow> (if n = 1 then 4 else 0)
      | TIM2_CNT \<Rightarrow> 30001
      | TIM2_CCR2 \<Rightarrow> 100
      | _ \<Rightarrow> 0)"

definition env_late_rising :: env where
  "env_late_rising r n =
     (case r of
        TIM2_SR \<Rightarrow> (if n = 2 \<or> n = 3 \<or> n = 5 then 4 else 0)
      | TIM2_CNT \<Rightarrow> (if n = 0 then 35000 else 35010)
      | TIM2_CCR2 \<Rightarrow> (if n = 0 then 35005 else 36005)
      | _ \<Rightarrow> 0)"

section \<open>Properties\<close>

subsection \<open>Traces\<close>

lemma nreads_Nil [simp]: "nreads r [] = 0"
  by (simp add: nreads_def)

lemma nreads_append [simp]: "nreads r (xs @ ys) = nreads r xs + nreads r ys"
  by (simp add: nreads_def)

lemma nreads_Cons_Rd [simp]: "nreads r (Rd r' v # xs) = (if r' = r then 1 else 0) + nreads r xs"
  by (simp add: nreads_def)

lemma nreads_Cons_other [simp]:
  "nreads r (Wr r' v # xs) = nreads r xs"
  "nreads r (Print_pulse_width v # xs) = nreads r xs"
  "nreads r (Print_distance v # xs) = nreads r xs"
  by (simp_all add: nreads_def)

lemma nreads_polls: "list_all is_poll ext \<Longrightarrow> r \<noteq> TIM2_SR \<Longrightarrow> r \<noteq> TIM2_CNT \<Longrightarrow> nreads r ext = 0"
proof (induction ext)
  case Nil
  then show ?case by simp
next
  case (Cons e ext)
  then show ?case by (cases e) auto
qed

lemma word_dec_nonzero: "(w :: u32) \<noteq> 0 \<Longrightarrow> unat (w - 1) + 1 = unat w \<and> 1 \<le> unat w"
  by (simp add: unat_minus_one unat_gt_0 word_neq_0_conv Suc_leI)

lemma wait_capture_trace:
  "\<exists>ext. snd (wait_capture env bound timeout tr) = tr @ ext \<and> list_all is_poll ext \<and>
         nreads TIM2_SR ext \<le> unat (timeout - 1) + 1 \<and> nreads TIM2_CNT ext \<le> unat (timeout - 1)"
proof (induction env bound timeout tr rule: wait_capture.induct)
  case (1 env bound timeout tr)
  let ?sr = "env TIM2_SR (nreads TIM2_SR tr)"
  let ?tr1 = "tr @ [Rd TIM2_SR ?sr]"
  let ?cnt = "env TIM2_CNT (nreads TIM2_CNT ?tr1)"
  let ?tr2 = "?tr1 @ [Rd TIM2_CNT ?cnt]"
  show ?case
  proof (cases "cc2if ?sr \<or> timeout - 1 = 0 \<or> ?cnt > bound")
    case True
    then show ?thesis
      using word_dec_nonzero [of "timeout - 1"]
      by (subst wait_capture.simps) (auto simp: rd_def Let_def)
  next
    case False
    then have rec: "wait_capture env bound timeout tr = wait_capture env bound (timeout - 1) ?tr2"
      by (subst wait_capture.simps) (simp add: rd_def Let_def)
    from False have nz: "timeout - 1 \<noteq> 0" by simp
    from False "1.IH" [of "(?sr, ?tr1)" ?sr ?tr1 "timeout - 1" "(?cnt, ?tr2)" ?cnt ?tr2]
    obtain ext where ext: "snd (wait_capture env bound (timeout - 1) ?tr2) = ?tr2 @ ext"
      "list_all is_poll ext" "nreads TIM2_SR ext \<le> unat (timeout - 1 - 1) + 1"
      "nreads TIM2_CNT ext \<le> unat (timeout - 1 - 1)"
      by (auto simp: rd_def Let_def)
    let ?ext = "Rd TIM2_SR ?sr # Rd TIM2_CNT ?cnt # ext"
    have "snd (wait_capture env bound timeout tr) = tr @ ?ext"
      using rec ext(1) by simp
    moreover have "list_all is_poll ?ext" using ext(2) by simp
    moreover have "nreads TIM2_SR ?ext \<le> unat (timeout - 1) + 1"
      using ext(3) word_dec_nonzero [OF nz] by simp
    moreover have "nreads TIM2_CNT ?ext \<le> unat (timeout - 1)"
      using ext(4) word_dec_nonzero [OF nz] by simp
    ultimately show ?thesis by blast
  qed
qed


lemma wait_capture_found:
  assumes "\<forall>j\<in>{0..<k}. \<not> cc2if (env TIM2_SR (nreads TIM2_SR tr + j)) \<and>
                        env TIM2_CNT (nreads TIM2_CNT tr + j) \<le> bound"
    and "cc2if (env TIM2_SR (nreads TIM2_SR tr + k))"
    and "k < unat timeout"
  shows "\<exists>ext t. wait_capture env bound timeout tr = (Fall_through t, tr @ ext) \<and> t \<noteq> 0 \<and>
           list_all is_poll ext \<and> nreads TIM2_SR ext = k + 1 \<and> nreads TIM2_CNT ext = k"
  using assms
proof (induction k arbitrary: timeout tr)
  case 0
  then have "timeout \<noteq> 0" by (auto simp: unat_gt_0)
  with 0 have "wait_capture env bound timeout tr =
      (Fall_through timeout, tr @ [Rd TIM2_SR (env TIM2_SR (nreads TIM2_SR tr))]) \<and> timeout \<noteq> 0"
    by (subst wait_capture.simps) (simp add: rd_def Let_def)
  then show ?case by auto
next
  case (Suc k)
  let ?sr = "env TIM2_SR (nreads TIM2_SR tr)"
  let ?tr1 = "tr @ [Rd TIM2_SR ?sr]"
  let ?cnt = "env TIM2_CNT (nreads TIM2_CNT tr)"
  let ?tr2 = "?tr1 @ [Rd TIM2_CNT ?cnt]"
  from Suc.prems(1) have first: "\<not> cc2if ?sr" "?cnt \<le> bound"
    by (auto dest: bspec [where x = 0])
  have t0: "timeout \<noteq> 0" using Suc.prems(3) by (auto simp: unat_gt_0)
  from word_dec_nonzero [OF t0] Suc.prems(3) have k: "k < unat (timeout - 1)" by simp
  then have t1: "timeout - 1 \<noteq> 0" by (auto simp: unat_gt_0)
  have rec: "wait_capture env bound timeout tr = wait_capture env bound (timeout - 1) ?tr2"
    using first t1 by (subst wait_capture.simps) (simp add: rd_def Let_def not_less [symmetric])
  have shifted: "\<forall>j\<in>{0..<k}. \<not> cc2if (env TIM2_SR (nreads TIM2_SR ?tr2 + j)) \<and>
                        env TIM2_CNT (nreads TIM2_CNT ?tr2 + j) \<le> bound"
  proof
    fix j assume "j \<in> {0..<k}"
    then have "Suc j \<in> {0..<Suc k}" by simp
    from Suc.prems(1) [rule_format, OF this]
    show "\<not> cc2if (env TIM2_SR (nreads TIM2_SR ?tr2 + j)) \<and>
          env TIM2_CNT (nreads TIM2_CNT ?tr2 + j) \<le> bound"
      by simp
  qed
  have last: "cc2if (env TIM2_SR (nreads TIM2_SR ?tr2 + k))"
    using Suc.prems(2) by simp
  from Suc.IH [OF shifted last k] obtain ext t where
    ext: "wait_capture env bound (timeout - 1) ?tr2 = (Fall_through t, ?tr2 @ ext)" "t \<noteq> 0"
      "list_all is_poll ext" "nreads TIM2_SR ext = k + 1" "nreads TIM2_CNT ext = k"
    by blast
  let ?ext = "Rd TIM2_SR ?sr # Rd TIM2_CNT ?cnt # ext"
  have "wait_capture env bound timeout tr = (Fall_through t, tr @ ?ext)"
    using rec ext(1) by simp
  moreover have "list_all is_poll ?ext" using ext(3) by simp
  moreover have "nreads TIM2_SR ?ext = Suc k + 1" using ext(4) by simp
  moreover have "nreads TIM2_CNT ?ext = Suc k" using ext(5) by simp
  ultimately show ?case using ext(2) by blast
qed

lemma wait_capture_missed_aux:
  assumes "unat (timeout - 1) = n"
    and "\<forall>j\<in>{0..<n + 1}.
             (\<forall>i\<in>{0..<j}. env TIM2_CNT (nreads TIM2_CNT tr + i) \<le> bound) \<longrightarrow>
             \<not> cc2if (env TIM2_SR (nreads TIM2_SR tr + j))"
  shows "fst (wait_capture env bound timeout tr) = Return_from_loop 0xFFFF \<or>
         fst (wait_capture env bound timeout tr) = Fall_through 0"
  using assms
proof (induction n arbitrary: timeout tr)
  case 0
  from "0.prems"(2) [rule_format, of 0] have clear: "\<not> cc2if (env TIM2_SR (nreads TIM2_SR tr))"
    by simp
  from "0.prems"(1) have "timeout - 1 = 0" by (simp add: unat_eq_0)
  with clear show ?case
    by (subst (1 2) wait_capture.simps) (simp add: rd_def Let_def)
next
  case (Suc n)
  let ?sr = "env TIM2_SR (nreads TIM2_SR tr)"
  let ?tr1 = "tr @ [Rd TIM2_SR ?sr]"
  let ?cnt = "env TIM2_CNT (nreads TIM2_CNT tr)"
  let ?tr2 = "?tr1 @ [Rd TIM2_CNT ?cnt]"
  from Suc.prems(2) [rule_format, of 0] have clear: "\<not> cc2if ?sr" by simp
  from Suc.prems(1) have nz: "timeout - 1 \<noteq> 0" by auto
  show ?case
  proof (cases "?cnt > bound")
    case True
    with clear nz show ?thesis
      by (subst (1 2) wait_capture.simps) (simp add: rd_def Let_def)
  next
    case False
    then have le: "?cnt \<le> bound" by simp
    have rec: "wait_capture env bound timeout tr = wait_capture env bound (timeout - 1) ?tr2"
      using clear nz False by (subst wait_capture.simps) (simp add: rd_def Let_def)
    from word_dec_nonzero [OF nz] Suc.prems(1) have n: "unat (timeout - 1 - 1) = n" by simp
    have shifted: "\<forall>j\<in>{0..<n + 1}.
             (\<forall>i\<in>{0..<j}. env TIM2_CNT (nreads TIM2_CNT ?tr2 + i) \<le> bound) \<longrightarrow>
             \<not> cc2if (env TIM2_SR (nreads TIM2_SR ?tr2 + j))"
    proof (intro ballI impI)
      fix j
      assume j: "j \<in> {0..<n + 1}"
        and c: "\<forall>i\<in>{0..<j}. env TIM2_CNT (nreads TIM2_CNT ?tr2 + i) \<le> bound"
      from j have "Suc j \<in> {0..<Suc n + 1}" by simp
      moreover have "\<forall>i\<in>{0..<Suc j}. env TIM2_CNT (nreads TIM2_CNT tr + i) \<le> bound"
      proof
        fix i assume i: "i \<in> {0..<Suc j}"
        show "env TIM2_CNT (nreads TIM2_CNT tr + i) \<le> bound"
        proof (cases i)
          case 0
          with le show ?thesis by simp
        next
          case (Suc i')
          with i have "i' \<in> {0..<j}" by simp
          from c [rule_format, OF this] Suc show ?thesis by simp
        qed
      qed
      ultimately have "\<not> cc2if (env TIM2_SR (nreads TIM2_SR tr + Suc j))"
        using Suc.prems(2) by blast
      then show "\<not> cc2if (env TIM2_SR (nreads TIM2_SR ?tr2 + j))" by simp
    qed
    from Suc.IH [OF n shifted] rec show ?thesis by simp
  qed
qed


lemma arm_and_trigger_reads:
  "nreads TIM2_SR (arm_and_trigger env tr) = nreads TIM2_SR tr + 1"
  "nreads TIM2_CNT (arm_and_trigger env tr) = nreads TIM2_CNT tr"
  "nreads TIM2_CCR2 (arm_and_trigger env tr) = nreads TIM2_CCR2 tr"
  by (simp_all add: arm_and_trigger_def rearm_timer_def fire_trigger_def rd_def wr_def
        delay_us_def Let_def)

lemma wait_rising_found:
  assumes "rising_seen env tr k1"
  shows "\<exists>ext t. wait_capture env 60000 50000 (arm_and_trigger env tr) =
             (Fall_through t, arm_and_trigger env tr @ ext) \<and> t \<noteq> 0 \<and>
           list_all is_poll ext \<and> nreads TIM2_SR ext = k1 + 1 \<and> nreads TIM2_CNT ext = k1"
proof (rule wait_capture_found)
  from assms show "\<forall>j\<in>{0..<k1}.
       \<not> cc2if (env TIM2_SR (nreads TIM2_SR (arm_and_trigger env tr) + j)) \<and>
       env TIM2_CNT (nreads TIM2_CNT (arm_and_trigger env tr) + j) \<le> 60000"
    by (simp add: rising_seen_def capture_seen_at_def arm_and_trigger_reads)
  from assms show "cc2if (env TIM2_SR (nreads TIM2_SR (arm_and_trigger env tr) + k1))"
    by (simp add: rising_seen_def capture_seen_at_def arm_and_trigger_reads)
  from assms show "k1 < unat (50000 :: u32)"
    by (simp add: rising_seen_def capture_seen_at_def)
qed

lemma armed_falling_reads:
  "nreads TIM2_SR (armed_falling env tr) = nreads TIM2_SR tr + 1"
  "nreads TIM2_CNT (armed_falling env tr) = nreads TIM2_CNT tr"
  "nreads TIM2_CCR2 (armed_falling env tr) = nreads TIM2_CCR2 tr + 1"
  by (simp_all add: armed_falling_def read_capture_def rd_def wr_def Let_def)

lemma measure_after_rising:
  assumes "wait_capture env 60000 50000 (arm_and_trigger env tr) = (Fall_through t, tr1)" "t \<noteq> 0"
  shows "measure_distance_cm env tr =
     (case wait_capture env 30000 50000 (armed_falling env tr1) of
        (Return_from_loop v, tr2) \<Rightarrow> (v, tr2)
      | (Fall_through timeout, tr2) \<Rightarrow>
          if timeout = 0 then (0xFFFF, tr2)
          else
            let d = distance_cm (pulse_width (env TIM2_CCR2 (nreads TIM2_CCR2 tr1))
                                             (env TIM2_CCR2 (nreads TIM2_CCR2 tr2)))
            in (d, snd (read_capture env tr2) @
                   [Print_pulse_width (pulse_width (env TIM2_CCR2 (nreads TIM2_CCR2 tr1))
                                             (env TIM2_CCR2 (nreads TIM2_CCR2 tr2))),
                    Print_distance d]))"
  using assms
  by (simp add: measure_distance_cm_def armed_falling_def read_capture_def rd_def wr_def Let_def
           split: prod.splits loop_exit.splits)

lemma polls_length: "list_all is_poll ext \<Longrightarrow> length ext = nreads TIM2_SR ext + nreads TIM2_CNT ext"
proof (induction ext)
  case Nil
  then show ?case by simp
next
  case (Cons e ext)
  then show ?case by (cases e) auto
qed

lemma arm_and_trigger_events:
  "arm_and_trigger env tr = tr @
     [Rd TIM2_SR (env TIM2_SR (nreads TIM2_SR tr)),
      Wr TIM2_SR (env TIM2_SR (nreads TIM2_SR tr) AND NOT (push_bit 2 1)),
      Wr TIM2_CNT 0,
      Rd TIM2_CCER (env TIM2_CCER (nreads TIM2_CCER tr)),
      Wr TIM2_CCER (env TIM2_CCER (nreads TIM2_CCER tr) AND NOT (push_bit 5 1)),
      Rd GPIOA_ODR (env GPIOA_ODR (nreads GPIOA_ODR tr)),
      Wr GPIOA_ODR (env GPIOA_ODR (nreads GPIOA_ODR tr) OR push_bit 0 1),
      Rd GPIOA_ODR (env GPIOA_ODR (nreads GPIOA_ODR tr + 1)),
      Wr GPIOA_ODR (env GPIOA_ODR (nreads GPIOA_ODR tr + 1) AND NOT (push_bit 0 1))]"
  by (simp add: arm_and_trigger_def rearm_timer_def fire_trigger_def rd_def wr_def
        delay_us_def Let_def)

lemma read_capture_events:
  "read_capture env tr =
     (env TIM2_CCR2 (nreads TIM2_CCR2 tr),
      tr @ [Rd TIM2_CCR2 (env TIM2_CCR2 (nreads TIM2_CCR2 tr)),
            Rd TIM2_SR (env TIM2_SR (nreads TIM2_SR tr)),
            Wr TIM2_SR (env TIM2_SR (nreads TIM2_SR tr) AND NOT (push_bit 2 1))])"
  by (simp add: read_capture_def rd_def wr_def Let_def)

lemma armed_falling_events:
  "armed_falling env tr = tr @
     [Rd TIM2_CCR2 (env TIM2_CCR2 (nreads TIM2_CCR2 tr)),
      Rd TIM2_SR (env TIM2_SR (nreads TIM2_SR tr)),
      Wr TIM2_SR (env TIM2_SR (nreads TIM2_SR tr) AND NOT (push_bit 2 1)),
      Rd TIM2_CCER (env TIM2_CCER (nreads TIM2_CCER tr)),
      Wr TIM2_CCER (env TIM2_CCER (nreads TIM2_CCER tr) OR push_bit 5 1)]"
  by (simp add: armed_falling_def read_capture_def rd_def wr_def Let_def)

lemma wait_capture_budget:
  "\<exists>ext. snd (wait_capture env bound 50000 tr) = tr @ ext \<and> list_all is_poll ext \<and>
         nreads TIM2_SR ext \<le> 50000 \<and> nreads TIM2_CNT ext \<le> 49999"
  using wait_capture_trace [of env bound 50000 tr] by simp

lemma wait_capture_missed:
  assumes "no_capture_seen env bound (nreads TIM2_SR tr) (nreads TIM2_CNT tr)"
  shows "fst (wait_capture env bound 50000 tr) = Return_from_loop 0xFFFF \<or>
         fst (wait_capture env bound 50000 tr) = Fall_through 0"
proof (rule wait_capture_missed_aux [where n = 49999])
  show "unat ((50000 :: u32) - 1) = 49999" by simp
  from assms show "\<forall>j\<in>{0..<49999 + 1}.
       (\<forall>i\<in>{0..<j}. env TIM2_CNT (nreads TIM2_CNT tr + i) \<le> bound) \<longrightarrow>
       \<not> cc2if (env TIM2_SR (nreads TIM2_SR tr + j))"
    by (simp add: no_capture_seen_def)
qed

lemma measure_no_rising:
  assumes "no_rising_seen env tr"
  shows "\<exists>ext. measure_distance_cm env tr = (0xFFFF, tr @ ext) \<and> nreads TIM2_CCR2 ext = 0 \<and>
           nreads TIM2_SR ext \<le> 50001 \<and> nreads TIM2_CNT ext \<le> 49999 \<and> length ext \<le> 100008"
proof -
  let ?a = "arm_and_trigger env tr"
  obtain pre where pre: "?a = tr @ pre" "length pre = 9" "nreads TIM2_SR pre = 1"
      "nreads TIM2_CNT pre = 0" "nreads TIM2_CCR2 pre = 0"
    using arm_and_trigger_events [of env tr] by simp
  obtain ext where ext: "snd (wait_capture env 60000 50000 ?a) = ?a @ ext" "list_all is_poll ext"
      "nreads TIM2_SR ext \<le> 50000" "nreads TIM2_CNT ext \<le> 49999"
    using wait_capture_budget [of env 60000 ?a] by blast
  have "no_capture_seen env 60000 (nreads TIM2_SR ?a) (nreads TIM2_CNT ?a)"
    using assms by (simp add: no_rising_seen_def arm_and_trigger_reads)
  from wait_capture_missed [OF this]
  have "measure_distance_cm env tr = (0xFFFF, snd (wait_capture env 60000 50000 ?a))"
    by (cases "wait_capture env 60000 50000 ?a") (auto simp: measure_distance_cm_def)
  then have "measure_distance_cm env tr = (0xFFFF, tr @ (pre @ ext))"
    using ext(1) pre(1) by simp
  moreover have "nreads TIM2_CCR2 (pre @ ext) = 0"
    using pre(5) ext(2) by (simp add: nreads_polls)
  moreover have "nreads TIM2_SR (pre @ ext) \<le> 50001" using pre(3) ext(3) by simp
  moreover have "nreads TIM2_CNT (pre @ ext) \<le> 49999" using pre(4) ext(4) by simp
  moreover have "length (pre @ ext) \<le> 100008"
    using pre(2) ext(3,4) polls_length [OF ext(2)] by simp
  ultimately show ?thesis by blast
qed

text \<open>
  A wait that never reads the flag set stops at the first counter value above the bound,
  or, when there is none among the first 49999, at the end of its 50000 polls.
\<close>

lemma wait_capture_stops_aux:
  assumes "unat (timeout - 1) = n"
    and "\<forall>j\<in>{0..<n + 1}.
             (\<forall>i\<in>{0..<j}. env TIM2_CNT (nreads TIM2_CNT tr + i) \<le> bound) \<longrightarrow>
             \<not> cc2if (env TIM2_SR (nreads TIM2_SR tr + j))"
  shows "\<exists>x ext. wait_capture env bound timeout tr = (x, tr @ ext) \<and> list_all is_poll ext \<and>
           ((\<exists>q<n. x = Return_from_loop 0xFFFF \<and>
                nreads TIM2_SR ext = q + 1 \<and> nreads TIM2_CNT ext = q + 1 \<and>
                (\<forall>j\<in>{0..<q}. env TIM2_CNT (nreads TIM2_CNT tr + j) \<le> bound) \<and>
                bound < env TIM2_CNT (nreads TIM2_CNT tr + q)) \<or>
            (x = Fall_through 0 \<and>
                nreads TIM2_SR ext = n + 1 \<and> nreads TIM2_CNT ext = n \<and>
                (\<forall>j\<in>{0..<n}. env TIM2_CNT (nreads TIM2_CNT tr + j) \<le> bound)))"
  using assms
proof (induction n arbitrary: timeout tr)
  case 0
  let ?sr = "env TIM2_SR (nreads TIM2_SR tr)"
  from "0.prems"(2) [rule_format, of 0] have clear: "\<not> cc2if ?sr"
    by simp
  from "0.prems"(1) have "timeout - 1 = 0" by (simp add: unat_eq_0)
  with clear have "wait_capture env bound timeout tr = (Fall_through 0, tr @ [Rd TIM2_SR ?sr])"
    by (subst wait_capture.simps) (simp add: rd_def Let_def)
  then show ?case by simp
next
  case (Suc n)
  let ?sr = "env TIM2_SR (nreads TIM2_SR tr)"
  let ?tr1 = "tr @ [Rd TIM2_SR ?sr]"
  let ?cnt = "env TIM2_CNT (nreads TIM2_CNT tr)"
  let ?tr2 = "?tr1 @ [Rd TIM2_CNT ?cnt]"
  from Suc.prems(2) [rule_format, of 0] have clear: "\<not> cc2if ?sr" by simp
  from Suc.prems(1) have nz: "timeout - 1 \<noteq> 0" by auto
  show ?case
  proof (cases "?cnt > bound")
    case True
    with clear nz have "wait_capture env bound timeout tr =
        (Return_from_loop 0xFFFF, tr @ [Rd TIM2_SR ?sr, Rd TIM2_CNT ?cnt])"
      by (subst wait_capture.simps) (simp add: rd_def Let_def)
    moreover have "list_all is_poll [Rd TIM2_SR ?sr, Rd TIM2_CNT ?cnt]" by simp
    moreover have "\<exists>q<Suc n. Return_from_loop 0xFFFF = Return_from_loop 0xFFFF \<and>
        nreads TIM2_SR [Rd TIM2_SR ?sr, Rd TIM2_CNT ?cnt] = q + 1 \<and>
        nreads TIM2_CNT [Rd TIM2_SR ?sr, Rd TIM2_CNT ?cnt] = q + 1 \<and>
        (\<forall>j\<in>{0..<q}. env TIM2_CNT (nreads TIM2_CNT tr + j) \<le> bound) \<and>
        bound < env TIM2_CNT (nreads TIM2_CNT tr + q)"
      using True by (intro exI [of _ 0]) simp
    ultimately show ?thesis by blast
  next
    case False
    then have le: "?cnt \<le> bound" by simp
    have rec: "wait_capture env bound timeout tr = wait_capture env bound (timeout - 1) ?tr2"
      using clear nz False by (subst wait_capture.simps) (simp add: rd_def Let_def)
    from word_dec_nonzero [OF nz] Suc.prems(1) have n: "unat (timeout - 1 - 1) = n" by simp
    have shifted: "\<forall>j\<in>{0..<n + 1}.
             (\<forall>i\<in>{0..<j}. env TIM2_CNT (nreads TIM2_CNT ?tr2 + i) \<le> bound) \<longrightarrow>
             \<not> cc2if (env TIM2_SR (nreads TIM2_SR ?tr2 + j))"
    proof (intro ballI impI)
      fix j
      assume j: "j \<in> {0..<n + 1}"
        and c: "\<forall>i\<in>{0..<j}. env TIM2_CNT (nreads TIM2_CNT ?tr2 + i) \<le> bound"
      from j have "Suc j \<in> {0..<Suc n + 1}" by simp
      moreover have "\<forall>i\<in>{0..<Suc j}. env TIM2_CNT (nreads TIM2_CNT tr + i) \<le> bound"
      proof
        fix i assume i: "i \<in> {0..<Suc j}"
        show "env TIM2_CNT (nreads TIM2_CNT tr + i) \<le> bound"
        proof (cases i)
          case 0
          with le show ?thesis by simp
        next
          case (Suc i')
          with i have "i' \<in> {0..<j}" by simp
          from c [rule_format, OF this] Suc show ?thesis by simp
        qed
      qed
      ultimately have "\<not> cc2if (env TIM2_SR (nreads TIM2_SR tr + Suc j))"
        using Suc.prems(2) by blast
      then show "\<not> cc2if (env TIM2_SR (nreads TIM2_SR ?tr2 + j))" by simp
    qed
    have ext_le: "\<forall>j\<in>{0..<Suc m}. env TIM2_CNT (nreads TIM2_CNT tr + j) \<le> bound"
      if "\<forall>j\<in>{0..<m}. env TIM2_CNT (nreads TIM2_CNT ?tr2 + j) \<le> bound" for m
    proof
      fix j assume j: "j \<in> {0..<Suc m}"
      show "env TIM2_CNT (nreads TIM2_CNT tr + j) \<le> bound"
      proof (cases j)
        case 0
        with le show ?thesis by simp
      next
        case (Suc j')
        with j have "j' \<in> {0..<m}" by simp
        from that [rule_format, OF this] Suc show ?thesis by simp
      qed
    qed
    from Suc.IH [OF n shifted] obtain x ext where
      w: "wait_capture env bound (timeout - 1) ?tr2 = (x, ?tr2 @ ext)" "list_all is_poll ext"
      and d: "(\<exists>q<n. x = Return_from_loop 0xFFFF \<and>
                nreads TIM2_SR ext = q + 1 \<and> nreads TIM2_CNT ext = q + 1 \<and>
                (\<forall>j\<in>{0..<q}. env TIM2_CNT (nreads TIM2_CNT ?tr2 + j) \<le> bound) \<and>
                bound < env TIM2_CNT (nreads TIM2_CNT ?tr2 + q)) \<or>
            (x = Fall_through 0 \<and>
                nreads TIM2_SR ext = n + 1 \<and> nreads TIM2_CNT ext = n \<and>
                (\<forall>j\<in>{0..<n}. env TIM2_CNT (nreads TIM2_CNT ?tr2 + j) \<le> bound))"
      by blast
    let ?ext = "Rd TIM2_SR ?sr # Rd TIM2_CNT ?cnt # ext"
    have w': "wait_capture env bound timeout tr = (x, tr @ ?ext)"
      using rec w(1) by simp
    have p': "list_all is_poll ?ext" using w(2) by simp
    from d show ?thesis
    proof
      assume "\<exists>q<n. x = Return_from_loop 0xFFFF \<and>
                nreads TIM2_SR ext = q + 1 \<and> nreads TIM2_CNT ext = q + 1 \<and>
                (\<forall>j\<in>{0..<q}. env TIM2_CNT (nreads TIM2_CNT ?tr2 + j) \<le> bound) \<and>
                bound < env TIM2_CNT (nreads TIM2_CNT ?tr2 + q)"
      then obtain q where q: "q < n" "x = Return_from_loop 0xFFFF"
        "nreads TIM2_SR ext = q + 1" "nreads TIM2_CNT ext = q + 1"
        "\<forall>j\<in>{0..<q}. env TIM2_CNT (nreads TIM2_CNT ?tr2 + j) \<le> bound"
        "bound < env TIM2_CNT (nreads TIM2_CNT ?tr2 + q)"
        by blast
      have "Suc q < Suc n \<and> x = Return_from_loop 0xFFFF \<and>
        nreads TIM2_SR ?ext = Suc q + 1 \<and> nreads TIM2_CNT ?ext = Suc q + 1 \<and>
        (\<forall>j\<in>{0..<Suc q}. env TIM2_CNT (nreads TIM2_CNT tr + j) \<le> bound) \<and>
        bound < env TIM2_CNT (nreads TIM2_CNT tr + Suc q)"
        using q(1-4,6) ext_le [OF q(5)] by simp
      then have "\<exists>q'<Suc n. x = Return_from_loop 0xFFFF \<and>
        nreads TIM2_SR ?ext = q' + 1 \<and> nreads TIM2_CNT ?ext = q' + 1 \<and>
        (\<forall>j\<in>{0..<q'}. env TIM2_CNT (nreads TIM2_CNT tr + j) \<le> bound) \<and>
        bound < env TIM2_CNT (nreads TIM2_CNT tr + q')"
        by (intro exI [of _ "Suc q"]) blast
      with w' p' show ?thesis by blast
    next
      assume b: "x = Fall_through 0 \<and>
                nreads TIM2_SR ext = n + 1 \<and> nreads TIM2_CNT ext = n \<and>
                (\<forall>j\<in>{0..<n}. env TIM2_CNT (nreads TIM2_CNT ?tr2 + j) \<le> bound)"
      then have "x = Fall_through 0 \<and>
                nreads TIM2_SR ?ext = Suc n + 1 \<and> nreads TIM2_CNT ?ext = Suc n \<and>
                (\<forall>j\<in>{0..<Suc n}. env TIM2_CNT (nreads TIM2_CNT tr + j) \<le> bound)"
        using ext_le [of n] by simp
      with w' p' show ?thesis by blast
    qed
  qed
qed

lemma wait_capture_stops:
  assumes "no_capture_seen env bound (nreads TIM2_SR tr) (nreads TIM2_CNT tr)"
  shows "\<exists>x ext. wait_capture env bound 50000 tr = (x, tr @ ext) \<and> list_all is_poll ext \<and>
           ((\<exists>q<49999. x = Return_from_loop 0xFFFF \<and>
                nreads TIM2_SR ext = q + 1 \<and> nreads TIM2_CNT ext = q + 1 \<and>
                (\<forall>j\<in>{0..<q}. env TIM2_CNT (nreads TIM2_CNT tr + j) \<le> bound) \<and>
                bound < env TIM2_CNT (nreads TIM2_CNT tr + q)) \<or>
            (x = Fall_through 0 \<and>
                nreads TIM2_SR ext = 49999 + 1 \<and> nreads TIM2_CNT ext = 49999 \<and>
                (\<forall>j\<in>{0..<49999}. env TIM2_CNT (nreads TIM2_CNT tr + j) \<le> bound)))"
proof (rule wait_capture_stops_aux)
  show "unat ((50000 :: u32) - 1) = 49999" by simp
  from assms show "\<forall>j\<in>{0..<49999 + 1}.
       (\<forall>i\<in>{0..<j}. env TIM2_CNT (nreads TIM2_CNT tr + i) \<le> bound) \<longrightarrow>
       \<not> cc2if (env TIM2_SR (nreads TIM2_SR tr + j))"
    by (simp add: no_capture_seen_def)
qed

lemma measure_no_rising_stops:
  assumes "no_rising_seen env tr"
  shows "\<exists>ext. measure_distance_cm env tr = (0xFFFF, tr @ ext) \<and>
           ((\<exists>q<49999. nreads TIM2_SR ext = q + 2 \<and> nreads TIM2_CNT ext = q + 1 \<and>
                length ext = 2 * q + 11 \<and>
                (\<forall>j\<in>{0..<q}. env TIM2_CNT (nreads TIM2_CNT tr + j) \<le> 60000) \<and>
                60000 < env TIM2_CNT (nreads TIM2_CNT tr + q)) \<or>
            (nreads TIM2_SR ext = 50001 \<and> nreads TIM2_CNT ext = 49999 \<and>
                length ext = 100008 \<and>
                (\<forall>j\<in>{0..<49999}. env TIM2_CNT (nreads TIM2_CNT tr + j) \<le> 60000)))"
proof -
  let ?a = "arm_and_trigger env tr"
  obtain pre where pre: "?a = tr @ pre" "length pre = 9" "nreads TIM2_SR pre = 1"
      "nreads TIM2_CNT pre = 0"
    using arm_and_trigger_events [of env tr] by simp
  have "no_capture_seen env 60000 (nreads TIM2_SR ?a) (nreads TIM2_CNT ?a)"
    using assms by (simp add: no_rising_seen_def arm_and_trigger_reads)
  from wait_capture_stops [OF this] obtain x ext where
    w: "wait_capture env 60000 50000 ?a = (x, ?a @ ext)" "list_all is_poll ext"
    and d: "(\<exists>q<49999. x = Return_from_loop 0xFFFF \<and>
                nreads TIM2_SR ext = q + 1 \<and> nreads TIM2_CNT ext = q + 1 \<and>
                (\<forall>j\<in>{0..<q}. env TIM2_CNT (nreads TIM2_CNT tr + j) \<le> 60000) \<and>
                60000 < env TIM2_CNT (nreads TIM2_CNT tr + q)) \<or>
            (x = Fall_through 0 \<and>
                nreads TIM2_SR ext = 49999 + 1 \<and> nreads TIM2_CNT ext = 49999 \<and>
                (\<forall>j\<in>{0..<49999}. env TIM2_CNT (nreads TIM2_CNT tr + j) \<le> 60000))"
    unfolding arm_and_trigger_reads by blast
  have len: "length (pre @ ext) = 9 + nreads TIM2_SR ext + nreads TIM2_CNT ext"
    using pre(2) polls_length [OF w(2)] by simp
  from d show ?thesis
  proof
    assume "\<exists>q<49999. x = Return_from_loop 0xFFFF \<and>
                nreads TIM2_SR ext = q + 1 \<and> nreads TIM2_CNT ext = q + 1 \<and>
                (\<forall>j\<in>{0..<q}. env TIM2_CNT (nreads TIM2_CNT tr + j) \<le> 60000) \<and>
                60000 < env TIM2_CNT (nreads TIM2_CNT tr + q)"
    then obtain q where q: "q < 49999" "x = Return_from_loop 0xFFFF"
        "nreads TIM2_SR ext = q + 1" "nreads TIM2_CNT ext = q + 1"
        "\<forall>j\<in>{0..<q}. env TIM2_CNT (nreads TIM2_CNT tr + j) \<le> 60000"
        "60000 < env TIM2_CNT (nreads TIM2_CNT tr + q)"
      by blast
    have m: "measure_distance_cm env tr = (0xFFFF, tr @ (pre @ ext))"
      using w(1) q(2) pre(1) by (simp add: measure_distance_cm_def)
    have "q < 49999 \<and> nreads TIM2_SR (pre @ ext) = q + 2 \<and> nreads TIM2_CNT (pre @ ext) = q + 1 \<and>
         length (pre @ ext) = 2 * q + 11"
      using q(1,3,4) pre(3,4) len by simp
    with q(5,6) m show ?thesis by blast
  next
    assume b: "x = Fall_through 0 \<and>
                nreads TIM2_SR ext = 49999 + 1 \<and> nreads TIM2_CNT ext = 49999 \<and>
                (\<forall>j\<in>{0..<49999}. env TIM2_CNT (nreads TIM2_CNT tr + j) \<le> 60000)"
    have m: "measure_distance_cm env tr = (0xFFFF, tr @ (pre @ ext))"
      using w(1) b pre(1) by (simp add: measure_distance_cm_def)
    have "nreads TIM2_SR (pre @ ext) = 50001 \<and> nreads TIM2_CNT (pre @ ext) = 49999 \<and>
         length (pre @ ext) = 100008"
      using b pre(3,4) len by simp
    with b m show ?thesis by blast
  qed
qed

lemma measure_no_falling:
  assumes r: "rising_seen env tr k1" and f: "no_falling_seen env tr k1"
  shows "fst (measure_distance_cm env tr) = 0xFFFF"
proof -
  let ?a = "arm_and_trigger env tr"
  from wait_rising_found [OF r] obtain ext1 t1 where
    w1: "wait_capture env 60000 50000 ?a = (Fall_through t1, ?a @ ext1)" "t1 \<noteq> 0"
      "list_all is_poll ext1" "nreads TIM2_SR ext1 = k1 + 1" "nreads TIM2_CNT ext1 = k1"
    by blast
  let ?b = "armed_falling env (?a @ ext1)"
  have "no_capture_seen env 30000 (nreads TIM2_SR ?b) (nreads TIM2_CNT ?b)"
    using f w1(4,5)
    by (simp add: no_falling_seen_def armed_falling_reads arm_and_trigger_reads
          add.commute add.left_commute numeral_3_eq_3)
  from wait_capture_missed [OF this] show ?thesis
    by (cases "wait_capture env 30000 50000 ?b") (auto simp: measure_after_rising [OF w1(1,2)])
qed

lemma measure_starts_armed:
  "\<exists>ext. snd (measure_distance_cm env tr) = arm_and_trigger env tr @ ext"
proof -
  let ?a = "arm_and_trigger env tr"
  obtain ext1 where ext1: "snd (wait_capture env 60000 50000 ?a) = ?a @ ext1"
    using wait_capture_budget [of env 60000 ?a] by blast
  obtain x1 where w1: "wait_capture env 60000 50000 ?a = (x1, ?a @ ext1)"
    using ext1 by (cases "wait_capture env 60000 50000 ?a") simp
  show ?thesis
  proof (cases "\<exists>t. x1 = Fall_through t \<and> t \<noteq> 0")
    case False
    then have "snd (measure_distance_cm env tr) = ?a @ ext1"
      using w1 by (cases x1) (auto simp: measure_distance_cm_def)
    then show ?thesis by blast
  next
    case True
    then obtain t where t: "wait_capture env 60000 50000 ?a = (Fall_through t, ?a @ ext1)" "t \<noteq> 0"
      using w1 by blast
    let ?b = "armed_falling env (?a @ ext1)"
    obtain ev where ev: "?b = (?a @ ext1) @ ev"
      using armed_falling_events [of env "?a @ ext1"] by blast
    obtain ext2 where ext2: "snd (wait_capture env 30000 50000 ?b) = ?b @ ext2"
      using wait_capture_budget [of env 30000 ?b] by blast
    obtain x2 where w2: "wait_capture env 30000 50000 ?b = (x2, ?b @ ext2)"
      using ext2 by (cases "wait_capture env 30000 50000 ?b") simp
    have "\<exists>fin. snd (measure_distance_cm env tr) = (?b @ ext2) @ fin"
      using w2 by (cases x2) (auto simp: measure_after_rising [OF t] read_capture_events Let_def)
    then obtain fin where "snd (measure_distance_cm env tr) = (?b @ ext2) @ fin" by blast
    then have "snd (measure_distance_cm env tr) = ?a @ (ext1 @ ev @ ext2 @ fin)"
      using ev by simp
    then show ?thesis by blast
  qed
qed

lemma measure_success:
  assumes r: "rising_seen env tr k1" and f: "falling_seen env tr k1 k2"
  shows "\<exists>tr'. measure_distance_cm env tr =
           (distance_cm (pulse_width (start_capture env tr) (end_capture env tr)),
            tr' @ [Print_pulse_width (pulse_width (start_capture env tr) (end_capture env tr)),
                   Print_distance (distance_cm (pulse_width (start_capture env tr) (end_capture env tr)))])"
proof -
  let ?a = "arm_and_trigger env tr"
  from wait_rising_found [OF r] obtain ext1 t1 where
    w1: "wait_capture env 60000 50000 ?a = (Fall_through t1, ?a @ ext1)" "t1 \<noteq> 0"
      "list_all is_poll ext1" "nreads TIM2_SR ext1 = k1 + 1" "nreads TIM2_CNT ext1 = k1"
    by blast
  let ?b = "armed_falling env (?a @ ext1)"
  have c1: "nreads TIM2_CCR2 ext1 = 0" using w1(3) by (simp add: nreads_polls)
  have "\<exists>ext t. wait_capture env 30000 50000 ?b = (Fall_through t, ?b @ ext) \<and> t \<noteq> 0 \<and>
           list_all is_poll ext \<and> nreads TIM2_SR ext = k2 + 1 \<and> nreads TIM2_CNT ext = k2"
  proof (rule wait_capture_found)
    from f w1 show "\<forall>j\<in>{0..<k2}.
       \<not> cc2if (env TIM2_SR (nreads TIM2_SR ?b + j)) \<and>
       env TIM2_CNT (nreads TIM2_CNT ?b + j) \<le> 30000"
      by (simp add: falling_seen_def capture_seen_at_def armed_falling_reads arm_and_trigger_reads
            add.commute add.left_commute numeral_3_eq_3)
    from f w1 show "cc2if (env TIM2_SR (nreads TIM2_SR ?b + k2))"
      by (simp add: falling_seen_def capture_seen_at_def armed_falling_reads arm_and_trigger_reads
            add.commute add.left_commute numeral_3_eq_3)
    from f show "k2 < unat (50000 :: u32)"
      by (simp add: falling_seen_def capture_seen_at_def)
  qed
  then obtain ext2 t2 where
    w2: "wait_capture env 30000 50000 ?b = (Fall_through t2, ?b @ ext2)" "t2 \<noteq> 0"
      "list_all is_poll ext2"
    by blast
  have c2: "nreads TIM2_CCR2 ext2 = 0" using w2(3) by (simp add: nreads_polls)
  show ?thesis
    using w2(1,2) c1 c2
    by (simp add: measure_after_rising [OF w1(1,2)] Let_def start_capture_def end_capture_def
          armed_falling_reads arm_and_trigger_reads)
qed

text \<open>Every cycle starts with the writes of lines 101-107.\<close>

lemma measure_rearms:
  "\<exists>ext. snd (measure_distance_cm env tr) =
     tr @ [Rd TIM2_SR (env TIM2_SR (nreads TIM2_SR tr)),
           Wr TIM2_SR (env TIM2_SR (nreads TIM2_SR tr) AND NOT (push_bit 2 1)),
           Wr TIM2_CNT 0,
           Rd TIM2_CCER (env TIM2_CCER (nreads TIM2_CCER tr)),
           Wr TIM2_CCER (env TIM2_CCER (nreads TIM2_CCER tr) AND NOT (push_bit 5 1))] @ ext"
proof -
  from measure_starts_armed [of env tr] obtain ext where
    "snd (measure_distance_cm env tr) = arm_and_trigger env tr @ ext" by blast
  then show ?thesis by (simp add: arm_and_trigger_events)
qed

lemma rearm_values:
  "\<not> cc2if (sr AND NOT (push_bit 2 1))" "\<not> bit (ccer AND NOT (push_bit 5 1 :: u32)) 5"
proof -
  have "(sr AND NOT (push_bit 2 1)) AND push_bit 2 1 = 0"
    by (simp add: and.assoc)
  then show "\<not> cc2if (sr AND NOT (push_bit 2 1))" by (simp only: cc2if_def)
  show "\<not> bit (ccer AND NOT (push_bit 5 1 :: u32)) 5"
    by (simp add: bit_simps)
qed

subsection \<open>Arithmetic of the pulse width and of the distance\<close>

lemma pw_wrap:
  assumes "end_time < start_time" "start_time \<le> 0xFFFF"
  shows "unat (pulse_width start_time end_time) = (65535 - unat start_time) + unat end_time + 1"
proof -
  define x where "x = (0xFFFF :: u32) - start_time"
  define y where "y = x + end_time"
  have s: "unat start_time \<le> 65535" using assms(2) by (simp add: word_le_nat_alt)
  have e: "unat end_time < unat start_time" using assms(1) by (simp add: word_less_nat_alt)
  have a: "unat x = 65535 - unat start_time"
    unfolding x_def using assms(2) by (simp add: unat_sub)
  have "unat x + unat end_time < 2 ^ LENGTH(32)" using a s e by simp
  then have b: "unat y = unat x + unat end_time"
    unfolding y_def by (simp only: unat_add_lem)
  have "unat y + unat (1 :: u32) < 2 ^ LENGTH(32)" using a b s e by simp
  then have c: "unat (y + 1) = unat y + unat (1 :: u32)"
    by (simp only: unat_add_lem)
  have "pulse_width start_time end_time = y + 1"
    using assms(1) by (simp add: pulse_width_def x_def y_def)
  then show ?thesis using a b c by simp
qed

lemma pw_range:
  assumes "start_time \<le> 0xFFFF" "end_time \<le> 0xFFFF"
  shows "pulse_width start_time end_time \<le> 0xFFFF"
proof (cases "start_time \<le> end_time")
  case True
  then have "unat (pulse_width start_time end_time) = unat end_time - unat start_time"
    by (simp add: pulse_width_def unat_sub)
  then show ?thesis using assms(2) by (simp add: word_le_nat_alt)
next
  case False
  then have lt: "end_time < start_time" by simp
  from pw_wrap[OF lt assms(1)] lt assms show ?thesis
    by (simp add: word_le_nat_alt word_less_nat_alt)
qed

lemma dist_nat: "pw \<le> 0xFFFF \<Longrightarrow> unat (distance_cm pw) = (unat pw * 343) div 4000"
  by (simp add: distance_cm_def unat_div unat_word_ariths word_le_nat_alt)

lemma dist_mono: "p1 \<le> p2 \<Longrightarrow> p2 \<le> 0xFFFF \<Longrightarrow> distance_cm p1 \<le> distance_cm p2"
proof -
  assume a: "p1 \<le> p2" "p2 \<le> 0xFFFF"
  then have "p1 \<le> 0xFFFF" by simp
  with a show ?thesis
    by (simp add: word_le_nat_alt[of "distance_cm p1"] dist_nat div_le_mono word_le_nat_alt[symmetric])
qed

lemma dist_bound:
  assumes "pw \<le> 0xFFFF"
  shows "unat pw * 343 \<le> 22478505" and "unat (pw * 343) = unat pw * 343"
    and "distance_cm pw \<le> 5619"
proof -
  from assms have p: "unat pw \<le> 65535" by (simp add: word_le_nat_alt)
  then show "unat pw * 343 \<le> 22478505" by simp
  from p show "unat (pw * 343) = unat pw * 343" by (simp add: unat_word_ariths)
  from p have "unat pw * 343 div 4000 \<le> 5619" by simp
  then show "distance_cm pw \<le> 5619"
    using assms by (simp add: word_le_nat_alt [of "distance_cm pw"] dist_nat)
qed

lemma dist_reported:
  assumes "pw \<le> 0xFFFF"
  shows "distance_cm pw \<noteq> 0xFFFF" and "main_report (distance_cm pw) = Distance_line (distance_cm pw)"
proof -
  from dist_bound(3) [OF assms] show "distance_cm pw \<noteq> 0xFFFF" by auto
  then show "main_report (distance_cm pw) = Distance_line (distance_cm pw)"
    by (simp add: main_report_def)
qed

subsection \<open>Running a cycle on a concrete environment\<close>

text \<open>The equations that unfold one cycle, for evaluation by the simplifier.\<close>

lemmas cycle_eval = measure_distance_cm_def arm_and_trigger_def rearm_timer_def fire_trigger_def
  read_capture_def rd_def wr_def delay_us_def Let_def wait_capture.simps cc2if_def


section \<open>The claims\<close>

text \<open>
  C1.  For all captured timer values \<open>start_time\<close> and \<open>end_time\<close> with
  \<open>end_time \<ge> start_time\<close>, the pulse width computed at lines 150-157 is
  \<open>end_time - start_time\<close>, as 32-bit words and as natural numbers.
\<close>

theorem pulse_width_no_wraparound:
  assumes "start_time \<le> end_time"
  shows "pulse_width start_time end_time = end_time - start_time \<and>
         unat (pulse_width start_time end_time) = unat end_time - unat start_time \<and>
         unat start_time \<le> unat end_time"
  using assms by (simp add: pulse_width_def unat_sub word_le_nat_alt)

theorem pulse_width_no_wraparound_witness:
  "(100 :: u32) \<le> 588 \<and> pulse_width 100 588 = 588 - 100 \<and> unat (pulse_width 100 588) = 488"
  using pulse_width_no_wraparound [of 100 588] by simp

text \<open>
  C2.  For all captured timer values with \<open>end_time < start_time\<close> (the 16-bit counter
  wrapped once; \<open>start_time\<close> is at most \<open>TICK_MAX = 65535\<close>), the pulse width is
  \<open>(65535 - start_time) + end_time + 1\<close>, with no wrap-around of the 32-bit arithmetic;
  \<open>start_time = 65500\<close> and \<open>end_time = 40\<close> give 76.
\<close>

theorem pulse_width_one_wraparound:
  assumes "end_time < start_time" and "start_time \<le> 0xFFFF"
  shows "pulse_width start_time end_time = (0xFFFF - start_time) + end_time + 1 \<and>
         unat (pulse_width start_time end_time) = (65535 - unat start_time) + unat end_time + 1 \<and>
         pulse_width 65500 40 = 76"
  using assms pw_wrap [OF assms] by (simp add: pulse_width_def)

theorem pulse_width_one_wraparound_witness:
  "(40 :: u32) < 65500 \<and> (65500 :: u32) \<le> 0xFFFF \<and>
   unat (pulse_width 65500 40) = (65535 - 65500) + 40 + 1 \<and> unat (pulse_width 65500 40) = 76"
  using pulse_width_one_wraparound [of 40 65500] by simp

text \<open>
  C3, as stated, fails.  The claim: when the rising edge is captured within its bound and
  the falling edge occurs within 30000 ticks of the rising-edge capture, the falling-edge
  wait does not time out.  The code compares the counter itself with 30000 (line 138), and
  the counter runs from the reset of line 104, not from the rising edge.  On
  \<open>env_late_rising\<close> the rising edge is captured at tick 35005, the falling-edge wait reads
  the counter at 35010, five ticks later, and the cycle returns \<open>0xFFFF\<close>, although the
  falling edge comes 1000 ticks after the rising one.
\<close>

theorem late_rising_edge_times_out:
  "rising_seen env_late_rising [] 1 \<and>
   falling_within_echo_duration env_late_rising [] 1 1 \<and>
   pulse_width (start_capture env_late_rising []) (end_capture env_late_rising []) = 1000 \<and>
   fst (measure_distance_cm env_late_rising []) = 0xFFFF \<and>
   main_report (fst (measure_distance_cm env_late_rising [])) = Error_line"
proof -
  have "rising_seen env_late_rising [] 1"
    by (simp add: rising_seen_def capture_seen_at_def env_late_rising_def cc2if_def)
  moreover have "falling_within_echo_duration env_late_rising [] 1 1"
    by (simp add: falling_within_echo_duration_def env_late_rising_def cc2if_def
          start_capture_def end_capture_def pulse_width_def)
  moreover have "pulse_width (start_capture env_late_rising []) (end_capture env_late_rising []) = 1000"
    by (simp add: env_late_rising_def start_capture_def end_capture_def pulse_width_def)
  moreover have "fst (measure_distance_cm env_late_rising []) = 0xFFFF"
    by (simp add: cycle_eval env_late_rising_def)
  ultimately show ?thesis by (simp add: main_report_def)
qed

text \<open>
  C3, amended.  When the rising edge is seen within its bound and the falling-edge wait
  then reads the flag set within its 50000 polls, every counter value it has read before,
  counted from the reset at the start of the cycle, being at most 30000, the wait does not
  time out: the cycle reaches line 171 and returns the distance of the pulse width, after
  printing both.
\<close>

theorem falling_edge_within_cycle_bound:
  assumes "rising_seen env tr k1" and "falling_seen env tr k1 k2"
  shows "\<exists>tr'. measure_distance_cm env tr =
           (distance_cm (pulse_width (start_capture env tr) (end_capture env tr)),
            tr' @ [Print_pulse_width (pulse_width (start_capture env tr) (end_capture env tr)),
                   Print_distance (distance_cm (pulse_width (start_capture env tr) (end_capture env tr)))])"
  using assms by (rule measure_success)

theorem falling_edge_within_cycle_bound_witness:
  "rising_seen (env_pulse 1 1 100 588) [] 1 \<and> falling_seen (env_pulse 1 1 100 588) [] 1 1 \<and>
   fst (measure_distance_cm (env_pulse 1 1 100 588) []) = 41 \<and>
   last (snd (measure_distance_cm (env_pulse 1 1 100 588) [])) = Print_distance 41"
proof -
  have r: "rising_seen (env_pulse 1 1 100 588) [] 1"
    by (simp add: rising_seen_def capture_seen_at_def env_pulse_def cc2if_def)
  have f: "falling_seen (env_pulse 1 1 100 588) [] 1 1"
    by (simp add: falling_seen_def capture_seen_at_def env_pulse_def cc2if_def)
  have d: "distance_cm (pulse_width (start_capture (env_pulse 1 1 100 588) [])
                                    (end_capture (env_pulse 1 1 100 588) [])) = 41"
    by (simp add: start_capture_def end_capture_def env_pulse_def pulse_width_def distance_cm_def)
  from falling_edge_within_cycle_bound [OF r f] r f show ?thesis
    unfolding d by auto
qed

text \<open>
  C4.  A cycle in which no poll of the rising-edge wait reads the capture flag set before
  the wait gives up returns the error value \<open>0xFFFF\<close>, which the caller reports as an
  error, and it never reads the capture register CCR2.  It does not wait beyond the bound:
  the wait stops at the first counter value above 60000, after reading the counter
  \<open>q + 1\<close> times and the status register \<open>q + 2\<close> times (the read of line 101
  included) when that value is the \<open>q\<close>-th one, and the cycle then has made \<open>2 * q + 11\<close>
  accesses; when none of the first 49999 counter values is above 60000, it stops after
  its 50000 polls, at 50001 reads of the status register and 49999 of the counter.
\<close>

theorem no_rising_edge_is_error:
  assumes "no_rising_seen env tr"
  shows "\<exists>ext. measure_distance_cm env tr = (0xFFFF, tr @ ext) \<and>
           nreads TIM2_CCR2 ext = 0 \<and>
           nreads TIM2_SR ext \<le> 50001 \<and> nreads TIM2_CNT ext \<le> 49999 \<and>
           length ext \<le> 100008 \<and>
           main_report (fst (measure_distance_cm env tr)) = Error_line \<and>
           ((\<exists>q<49999. nreads TIM2_SR ext = q + 2 \<and> nreads TIM2_CNT ext = q + 1 \<and>
                length ext = 2 * q + 11 \<and>
                (\<forall>j\<in>{0..<q}. env TIM2_CNT (nreads TIM2_CNT tr + j) \<le> 60000) \<and>
                60000 < env TIM2_CNT (nreads TIM2_CNT tr + q)) \<or>
            (nreads TIM2_SR ext = 50001 \<and> nreads TIM2_CNT ext = 49999 \<and>
                length ext = 100008 \<and>
                (\<forall>j\<in>{0..<49999}. env TIM2_CNT (nreads TIM2_CNT tr + j) \<le> 60000)))"
proof -
  from measure_no_rising [OF assms] obtain ext where
    ext: "measure_distance_cm env tr = (0xFFFF, tr @ ext)" "nreads TIM2_CCR2 ext = 0"
      "nreads TIM2_SR ext \<le> 50001" "nreads TIM2_CNT ext \<le> 49999" "length ext \<le> 100008"
    by blast
  from measure_no_rising_stops [OF assms] ext(1)
  have s: "(\<exists>q<49999. nreads TIM2_SR ext = q + 2 \<and> nreads TIM2_CNT ext = q + 1 \<and>
                length ext = 2 * q + 11 \<and>
                (\<forall>j\<in>{0..<q}. env TIM2_CNT (nreads TIM2_CNT tr + j) \<le> 60000) \<and>
                60000 < env TIM2_CNT (nreads TIM2_CNT tr + q)) \<or>
            (nreads TIM2_SR ext = 50001 \<and> nreads TIM2_CNT ext = 49999 \<and>
                length ext = 100008 \<and>
                (\<forall>j\<in>{0..<49999}. env TIM2_CNT (nreads TIM2_CNT tr + j) \<le> 60000))"
    by auto
  from ext(1) have "main_report (fst (measure_distance_cm env tr)) = Error_line"
    by (simp add: main_report_def)
  with ext s show ?thesis by blast
qed

theorem no_rising_edge_is_error_witness:
  "no_rising_seen env_silent [] \<and>
   fst (measure_distance_cm env_silent []) = 0xFFFF \<and>
   nreads TIM2_CCR2 (snd (measure_distance_cm env_silent [])) = 0 \<and>
   main_report (fst (measure_distance_cm env_silent [])) = Error_line \<and>
   nreads TIM2_CNT (snd (measure_distance_cm env_silent [])) = 1 \<and>
   length (snd (measure_distance_cm env_silent [])) = 11 \<and>
   no_rising_seen env_ramp [] \<and>
   fst (measure_distance_cm env_ramp []) = 0xFFFF \<and>
   nreads TIM2_CCR2 (snd (measure_distance_cm env_ramp [])) = 0 \<and>
   nreads TIM2_CNT (snd (measure_distance_cm env_ramp [])) = 4 \<and>
   length (snd (measure_distance_cm env_ramp [])) = 17"
proof -
  have n: "no_rising_seen env_silent []"
    by (simp add: no_rising_seen_def no_capture_seen_def env_silent_def cc2if_def)
  have n': "no_rising_seen env_ramp []"
    by (simp add: no_rising_seen_def no_capture_seen_def env_ramp_def cc2if_def)
  have c: "nreads TIM2_CNT (snd (measure_distance_cm env_silent [])) = 1"
    "length (snd (measure_distance_cm env_silent [])) = 11"
    by (simp_all add: cycle_eval env_silent_def)
  have c': "nreads TIM2_CNT (snd (measure_distance_cm env_ramp [])) = 4"
    "length (snd (measure_distance_cm env_ramp [])) = 17"
    by (simp_all add: cycle_eval env_ramp_def)
  from no_rising_edge_is_error [OF n] no_rising_edge_is_error [OF n'] n n' c c'
  show ?thesis by auto
qed

text \<open>
  C5, as stated, fails.  The claim: a cycle that sees a rising edge but no falling edge
  returns an error of a kind distinct from the one returned when no rising edge is seen.
  Both timeouts return the same value \<open>0xFFFF\<close> (lines 121, 124, 140, 143), and the caller
  prints the same line for both.
\<close>

theorem both_timeouts_return_same_value:
  "no_rising_seen env_silent [] \<and>
   rising_seen env_stuck_high [] 0 \<and> no_falling_seen env_stuck_high [] 0 \<and>
   fst (measure_distance_cm env_stuck_high []) = fst (measure_distance_cm env_silent []) \<and>
   main_report (fst (measure_distance_cm env_stuck_high [])) =
     main_report (fst (measure_distance_cm env_silent []))"
proof -
  have "no_rising_seen env_silent []"
    by (simp add: no_rising_seen_def no_capture_seen_def env_silent_def cc2if_def)
  moreover have "rising_seen env_stuck_high [] 0"
    by (simp add: rising_seen_def capture_seen_at_def env_stuck_high_def cc2if_def)
  moreover have "no_falling_seen env_stuck_high [] 0"
    by (simp add: no_falling_seen_def no_capture_seen_def env_stuck_high_def cc2if_def)
  moreover have "fst (measure_distance_cm env_stuck_high []) = 0xFFFF"
    by (simp add: cycle_eval env_stuck_high_def)
  moreover have "fst (measure_distance_cm env_silent []) = 0xFFFF"
    by (simp add: cycle_eval env_silent_def)
  ultimately show ?thesis by simp
qed

text \<open>
  C5, amended.  A cycle that sees a rising edge but in which no poll of the falling-edge
  wait reads the flag set before the wait gives up returns the error value \<open>0xFFFF\<close>,
  reported as an error by the caller: the same value as every cycle that sees no rising
  edge returns.
\<close>

theorem no_falling_edge_is_error:
  assumes "rising_seen env tr k1" and "no_falling_seen env tr k1"
  shows "fst (measure_distance_cm env tr) = 0xFFFF \<and>
         main_report (fst (measure_distance_cm env tr)) = Error_line \<and>
         (\<forall>env' tr'. no_rising_seen env' tr' \<longrightarrow>
            fst (measure_distance_cm env' tr') = fst (measure_distance_cm env tr))"
proof -
  have e: "fst (measure_distance_cm env tr) = 0xFFFF"
    using assms by (rule measure_no_falling)
  have "fst (measure_distance_cm env' tr') = 0xFFFF" if "no_rising_seen env' tr'" for env' tr'
    using measure_no_rising [OF that] by auto
  with e show ?thesis by (simp add: main_report_def)
qed

theorem no_falling_edge_is_error_witness:
  "rising_seen env_stuck_high [] 0 \<and> no_falling_seen env_stuck_high [] 0 \<and>
   fst (measure_distance_cm env_stuck_high []) = 0xFFFF \<and>
   main_report (fst (measure_distance_cm env_stuck_high [])) = Error_line"
proof -
  have r: "rising_seen env_stuck_high [] 0"
    by (simp add: rising_seen_def capture_seen_at_def env_stuck_high_def cc2if_def)
  have f: "no_falling_seen env_stuck_high [] 0"
    by (simp add: no_falling_seen_def no_capture_seen_def env_stuck_high_def cc2if_def)
  from no_falling_edge_is_error [OF r f]
  have "fst (measure_distance_cm env_stuck_high []) = 0xFFFF \<and>
        main_report (fst (measure_distance_cm env_stuck_high [])) = Error_line"
    by blast
  with r f show ?thesis by blast
qed

text \<open>
  C6.  Every successful cycle returns \<open>(pulse_width * 343) / 4000\<close> in unsigned 32-bit
  arithmetic, which for a pulse width of at most 65535 is the integer division of the
  natural numbers; a pulse width of 488 gives 41.
\<close>

theorem distance_is_integer_division:
  assumes "rising_seen env tr k1" and "falling_seen env tr k1 k2"
  shows "fst (measure_distance_cm env tr) =
           (pulse_width (start_capture env tr) (end_capture env tr) * 343) div 4000 \<and>
         (pulse_width (start_capture env tr) (end_capture env tr) \<le> 0xFFFF \<longrightarrow>
            unat (fst (measure_distance_cm env tr)) =
              (unat (pulse_width (start_capture env tr) (end_capture env tr)) * 343) div 4000) \<and>
         distance_cm 488 = 41"
proof -
  from measure_success [OF assms]
  have "fst (measure_distance_cm env tr) =
          distance_cm (pulse_width (start_capture env tr) (end_capture env tr))"
    by auto
  then show ?thesis by (simp add: dist_nat) (simp add: distance_cm_def)
qed

theorem distance_is_integer_division_witness:
  "rising_seen (env_echo 100 588) [] 0 \<and> falling_seen (env_echo 100 588) [] 0 0 \<and>
   pulse_width (start_capture (env_echo 100 588) []) (end_capture (env_echo 100 588) []) = 488 \<and>
   fst (measure_distance_cm (env_echo 100 588) []) = 41"
proof -
  have r: "rising_seen (env_echo 100 588) [] 0"
    by (simp add: rising_seen_def capture_seen_at_def env_echo_def cc2if_def)
  have f: "falling_seen (env_echo 100 588) [] 0 0"
    by (simp add: falling_seen_def capture_seen_at_def env_echo_def cc2if_def)
  have p: "pulse_width (start_capture (env_echo 100 588) []) (end_capture (env_echo 100 588) []) = 488"
    by (simp add: start_capture_def end_capture_def env_echo_def pulse_width_def)
  from distance_is_integer_division [OF r f] r f p show ?thesis by simp
qed

text \<open>
  C7.  For all captured values in \<open>[0, 65535]\<close> the pulse width, whichever branch
  computes it, is an unsigned value in \<open>[0, 65535]\<close>.
\<close>

theorem pulse_width_in_range:
  assumes "start_time \<le> 0xFFFF" and "end_time \<le> 0xFFFF"
  shows "pulse_width start_time end_time \<le> 0xFFFF \<and>
         0 \<le> uint (pulse_width start_time end_time) \<and>
         uint (pulse_width start_time end_time) \<le> 65535 \<and>
         (start_time \<le> end_time \<longrightarrow> end_time - start_time \<le> 0xFFFF) \<and>
         (end_time < start_time \<longrightarrow> (0xFFFF - start_time) + end_time + 1 \<le> 0xFFFF)"
proof -
  have r: "pulse_width start_time end_time \<le> 0xFFFF"
    using assms by (rule pw_range)
  then have "uint (pulse_width start_time end_time) \<le> 65535"
    by (simp add: word_le_def)
  moreover have "start_time \<le> end_time \<longrightarrow> end_time - start_time \<le> 0xFFFF"
    using r by (auto simp: pulse_width_def)
  moreover have "end_time < start_time \<longrightarrow> (0xFFFF - start_time) + end_time + 1 \<le> 0xFFFF"
  proof
    assume "end_time < start_time"
    then have eq: "pulse_width start_time end_time = (0xFFFF - start_time) + end_time + 1"
      by (simp add: pulse_width_def)
    from r show "(0xFFFF - start_time) + end_time + 1 \<le> 0xFFFF"
      unfolding eq .
  qed
  ultimately show ?thesis using r by simp
qed

theorem pulse_width_in_range_witness:
  "(65535 :: u32) \<le> 0xFFFF \<and> (0 :: u32) \<le> 0xFFFF \<and> pulse_width 65535 0 \<le> 0xFFFF \<and>
   pulse_width 65535 0 = 1 \<and> pulse_width 0 65535 = 65535"
  using pulse_width_in_range [of 65535 0] by (simp add: pulse_width_def)

text \<open>
  C8.  For every pulse width in \<open>[0, 65535]\<close> the product \<open>pulse_width * 343\<close> is at most
  22478505, below \<open>2 ^ 32\<close>, so it does not wrap; the distance is at most 5620 and differs
  from the error value \<open>0xFFFF\<close>.  Hence a successful cycle with such a pulse width
  returns a value that the caller reports as a distance.
\<close>

theorem success_never_sentinel:
  "(pw \<le> 0xFFFF \<longrightarrow>
      unat pw * 343 \<le> 22478505 \<and> (22478505 :: nat) < 2 ^ 32 \<and>
      unat (pw * 343) = unat pw * 343 \<and>
      distance_cm pw \<le> 5620 \<and> distance_cm pw \<noteq> 0xFFFF \<and>
      main_report (distance_cm pw) = Distance_line (distance_cm pw)) \<and>
   (rising_seen env tr k1 \<and> falling_seen env tr k1 k2 \<and>
    pulse_width (start_capture env tr) (end_capture env tr) \<le> 0xFFFF \<longrightarrow>
      fst (measure_distance_cm env tr) \<le> 5620 \<and>
      fst (measure_distance_cm env tr) \<noteq> 0xFFFF \<and>
      main_report (fst (measure_distance_cm env tr)) =
        Distance_line (fst (measure_distance_cm env tr)))"
proof (intro conjI impI)
  assume p: "pw \<le> 0xFFFF"
  show "unat pw * 343 \<le> 22478505" using p by (rule dist_bound(1))
  show "(22478505 :: nat) < 2 ^ 32" by simp
  show "unat (pw * 343) = unat pw * 343" using p by (rule dist_bound(2))
  from dist_bound(3) [OF p] show "distance_cm pw \<le> 5620"
    by (rule order_trans) simp
  show "distance_cm pw \<noteq> 0xFFFF" using p by (rule dist_reported(1))
  show "main_report (distance_cm pw) = Distance_line (distance_cm pw)"
    using p by (rule dist_reported(2))
next
  assume a: "rising_seen env tr k1 \<and> falling_seen env tr k1 k2 \<and>
    pulse_width (start_capture env tr) (end_capture env tr) \<le> 0xFFFF"
  let ?pw = "pulse_width (start_capture env tr) (end_capture env tr)"
  from a measure_success [of env tr k1 k2]
  have eq: "fst (measure_distance_cm env tr) = distance_cm ?pw"
    by auto
  from a have p: "?pw \<le> 0xFFFF" by simp
  from dist_bound(3) [OF p] show "fst (measure_distance_cm env tr) \<le> 5620"
    unfolding eq by (rule order_trans) simp
  show "fst (measure_distance_cm env tr) \<noteq> 0xFFFF"
    unfolding eq using p by (rule dist_reported(1))
  show "main_report (fst (measure_distance_cm env tr)) =
        Distance_line (fst (measure_distance_cm env tr))"
    unfolding eq using p by (rule dist_reported(2))
qed

theorem success_never_sentinel_witness:
  "(65535 :: u32) \<le> 0xFFFF \<and> unat (65535 :: u32) * 343 = 22478505 \<and>
   distance_cm 65535 = 5619 \<and> main_report (distance_cm 65535) = Distance_line 5619 \<and>
   rising_seen (env_echo 0 65535) [] 0 \<and> falling_seen (env_echo 0 65535) [] 0 0 \<and>
   pulse_width (start_capture (env_echo 0 65535) []) (end_capture (env_echo 0 65535) []) = 65535 \<and>
   fst (measure_distance_cm (env_echo 0 65535) []) \<noteq> 0xFFFF \<and>
   main_report (fst (measure_distance_cm (env_echo 0 65535) [])) =
     Distance_line (fst (measure_distance_cm (env_echo 0 65535) []))"
proof -
  have r: "rising_seen (env_echo 0 65535) [] 0"
    by (simp add: rising_seen_def capture_seen_at_def env_echo_def cc2if_def)
  have f: "falling_seen (env_echo 0 65535) [] 0 0"
    by (simp add: falling_seen_def capture_seen_at_def env_echo_def cc2if_def)
  have p: "pulse_width (start_capture (env_echo 0 65535) []) (end_capture (env_echo 0 65535) []) = 65535"
    by (simp add: start_capture_def end_capture_def env_echo_def pulse_width_def)
  have d: "distance_cm 65535 = 5619" by (simp add: distance_cm_def)
  from success_never_sentinel [of 65535 "env_echo 0 65535" "[]" 0 0] r f p d
  show ?thesis by simp
qed

text \<open>
  C9.  The distance is monotonically non-decreasing in the pulse width: for pulse widths
  \<open>p1 \<le> p2\<close> in the range \<open>[0, 65535]\<close>, \<open>(p1 * 343) / 4000 \<le> (p2 * 343) / 4000\<close>.
\<close>

theorem distance_monotone:
  assumes "p1 \<le> p2" and "p2 \<le> 0xFFFF"
  shows "distance_cm p1 \<le> distance_cm p2 \<and>
         unat (distance_cm p1) = (unat p1 * 343) div 4000 \<and>
         unat (distance_cm p2) = (unat p2 * 343) div 4000"
proof -
  from assms have "p1 \<le> 0xFFFF" by simp
  with assms show ?thesis by (simp add: dist_mono dist_nat)
qed

theorem distance_monotone_witness:
  "(488 :: u32) \<le> 500 \<and> (500 :: u32) \<le> 0xFFFF \<and> distance_cm 488 \<le> distance_cm 500 \<and>
   distance_cm 488 = 41 \<and> distance_cm 500 = 42"
  using distance_monotone [of 488 500] by (simp add: distance_cm_def)

text \<open>
  C10.  Two consecutive successful cycles with the same two captured values return the
  same distance, whatever trace the first cycle started from.  Each of them starts by
  writing the status register with CC2IF clear, the counter with 0 and CCER with CC2P
  clear (rising edge).
\<close>

theorem consecutive_cycles_agree:
  assumes "rising_seen env tr k1" and "falling_seen env tr k1 k2"
    and "tr' = snd (measure_distance_cm env tr)"
    and "rising_seen env tr' k1'" and "falling_seen env tr' k1' k2'"
    and "start_capture env tr' = start_capture env tr"
    and "end_capture env tr' = end_capture env tr"
  shows "fst (measure_distance_cm env tr') = fst (measure_distance_cm env tr) \<and>
         (\<forall>t \<in> {tr, tr'}. \<exists>sr ccer ext.
            snd (measure_distance_cm env t) =
              t @ [Rd TIM2_SR sr, Wr TIM2_SR (sr AND NOT (push_bit 2 1)), Wr TIM2_CNT 0,
                   Rd TIM2_CCER ccer, Wr TIM2_CCER (ccer AND NOT (push_bit 5 1))] @ ext \<and>
            \<not> cc2if (sr AND NOT (push_bit 2 1)) \<and>
            \<not> bit (ccer AND NOT (push_bit 5 1)) 5)"
proof -
  from measure_success [OF assms(1,2)]
  have a: "fst (measure_distance_cm env tr) =
      distance_cm (pulse_width (start_capture env tr) (end_capture env tr))" by auto
  from measure_success [OF assms(4,5)]
  have b: "fst (measure_distance_cm env tr') =
      distance_cm (pulse_width (start_capture env tr') (end_capture env tr'))" by auto
  have c: "\<exists>sr ccer ext.
            snd (measure_distance_cm env t) =
              t @ [Rd TIM2_SR sr, Wr TIM2_SR (sr AND NOT (push_bit 2 1)), Wr TIM2_CNT 0,
                   Rd TIM2_CCER ccer, Wr TIM2_CCER (ccer AND NOT (push_bit 5 1))] @ ext \<and>
            \<not> cc2if (sr AND NOT (push_bit 2 1)) \<and>
            \<not> bit (ccer AND NOT (push_bit 5 1)) 5" for t
    using measure_rearms [of env t] rearm_values by blast
  from a b assms(6,7) c show ?thesis by simp
qed

theorem consecutive_cycles_agree_witness:
  "rising_seen (env_echo 100 588) [] 0 \<and> falling_seen (env_echo 100 588) [] 0 0 \<and>
   rising_seen (env_echo 100 588) (snd (measure_distance_cm (env_echo 100 588) [])) 0 \<and>
   falling_seen (env_echo 100 588) (snd (measure_distance_cm (env_echo 100 588) [])) 0 0 \<and>
   start_capture (env_echo 100 588) (snd (measure_distance_cm (env_echo 100 588) [])) = 100 \<and>
   end_capture (env_echo 100 588) (snd (measure_distance_cm (env_echo 100 588) [])) = 588 \<and>
   fst (measure_distance_cm (env_echo 100 588) (snd (measure_distance_cm (env_echo 100 588) []))) =
   fst (measure_distance_cm (env_echo 100 588) [])"
proof -
  let ?e = "env_echo 100 588"
  let ?t = "snd (measure_distance_cm ?e [])"
  have r: "rising_seen ?e [] 0"
    by (simp add: rising_seen_def capture_seen_at_def env_echo_def cc2if_def)
  have f: "falling_seen ?e [] 0 0"
    by (simp add: falling_seen_def capture_seen_at_def env_echo_def cc2if_def)
  have r': "rising_seen ?e ?t 0"
    by (simp add: rising_seen_def capture_seen_at_def env_echo_def cc2if_def)
  have f': "falling_seen ?e ?t 0 0"
    by (simp add: falling_seen_def capture_seen_at_def env_echo_def cc2if_def)
  have n: "nreads TIM2_CCR2 ?t = 2"
    by (simp add: cycle_eval env_echo_def)
  have s: "start_capture ?e [] = 100" "end_capture ?e [] = 588"
    "start_capture ?e ?t = 100" "end_capture ?e ?t = 588"
    by (simp_all add: start_capture_def end_capture_def n) (simp_all add: env_echo_def)
  from consecutive_cycles_agree [OF r f refl r' f'] s r f r' f' show ?thesis by simp
qed

end
